theory Spec2Isabelle
  imports Main
begin

section \<open>The alarm state machine of nessclient (alarm.py)\<close>

text \<open>
  The class \<open>Alarm\<close> keeps the arming state, the recorded arming mode and sixteen
  zones of a Ness alarm panel, and updates them from parsed events. The embedding
  below follows alarm.py method by method. A method mutates the object in place and
  may call a listener or raise; here it takes the object and returns an
  \<open>outcome\<close>: the object as the call leaves it, the listener calls it made, in
  order, and the exception it raised, if any.
\<close>

subsection \<open>Enumerations of alarm.py\<close>

datatype ArmingState =
  UNKNOWN | DISARMED | ARMING | EXIT_DELAY | ARMED | ARMED_MONITOR | ENTRY_DELAY | TRIGGERED

datatype ArmingMode =
  ARMED_AWAY | ARMED_HOME | ARMED_DAY | ARMED_NIGHT | ARMED_VACATION | ARMED_HIGHEST

subsection \<open>Event types (event.py)\<close>

text \<open>
  Modelled from the spec: the module event.py, which declares the event classes and
  their enumerations, is not among the sources. The enumerations carry the members
  that alarm.py names; a further constructor stands for every member alarm.py does not
  name. The members of \<open>SystemStatusEvent.EventType\<close> are prefixed with
  \<open>EventType_\<close>, since several of them share their names with members of
  \<open>ArmingState\<close> and \<open>ArmingMode\<close>.
\<close>

datatype ArmingStatus =
  AREA_1_ARMED | AREA_1_FULLY_ARMED | MONITOR_ARMED | ArmingStatus_other nat

datatype RequestID =
  ZONE_INPUT_UNSEALED | RequestID_other nat

datatype ZoneFlag =
  ZONE_1 | ZONE_2 | ZONE_3 | ZONE_4 | ZONE_5 | ZONE_6 | ZONE_7 | ZONE_8
  | ZONE_9 | ZONE_10 | ZONE_11 | ZONE_12 | ZONE_13 | ZONE_14 | ZONE_15 | ZONE_16

datatype EventType =
  EventType_UNSEALED | EventType_SEALED | EventType_ALARM | EventType_ALARM_RESTORE
  | EventType_ENTRY_DELAY_START | EventType_ENTRY_DELAY_END
  | EventType_EXIT_DELAY_START | EventType_EXIT_DELAY_END
  | EventType_ARMED_AWAY | EventType_ARMED_HOME | EventType_ARMED_DAY
  | EventType_ARMED_NIGHT | EventType_ARMED_VACATION | EventType_ARMED_HIGHEST
  | EventType_DISARMED | EventType_ARMING_DELAYED | EventType_other nat

text \<open>
  Modelled from the spec: the event classes of event.py. \<open>ArmingUpdate\<close> carries
  its status flags, \<open>ZoneUpdate\<close> its request kind and included zones,
  \<open>SystemStatusEvent\<close> its type and an optional zone number; \<open>OtherEvent\<close> is any
  other subclass of \<open>BaseEvent\<close>. The flag collections are lists, as alarm.py
  compares the status with a list literal and tests membership with \<open>in\<close>.
\<close>

datatype Event =
  ArmingUpdate "ArmingStatus list"
  | ZoneUpdate RequestID "ZoneFlag list"
  | SystemStatusEvent EventType "int option"
  | OtherEvent

text \<open>
  Modelled from the spec: the lookup \<open>ZoneUpdate.Zone["ZONE_{}".format(zone_id)]\<close>
  of an enumeration member by its name. The enumeration of event.py has the members
  \<open>ZONE_1\<close> to \<open>ZONE_16\<close>; any other name raises KeyError, which is \<open>None\<close> here.
\<close>

definition Zone_by_name :: "nat \<Rightarrow> ZoneFlag option" where
  "Zone_by_name zone_id =
     (if zone_id = 1 then Some ZONE_1 else if zone_id = 2 then Some ZONE_2
      else if zone_id = 3 then Some ZONE_3 else if zone_id = 4 then Some ZONE_4
      else if zone_id = 5 then Some ZONE_5 else if zone_id = 6 then Some ZONE_6
      else if zone_id = 7 then Some ZONE_7 else if zone_id = 8 then Some ZONE_8
      else if zone_id = 9 then Some ZONE_9 else if zone_id = 10 then Some ZONE_10
      else if zone_id = 11 then Some ZONE_11 else if zone_id = 12 then Some ZONE_12
      else if zone_id = 13 then Some ZONE_13 else if zone_id = 14 then Some ZONE_14
      else if zone_id = 15 then Some ZONE_15 else if zone_id = 16 then Some ZONE_16
      else None)"

subsection \<open>The state of an Alarm\<close>

text \<open>
  \<open>Alarm.Zone\<close> is a dataclass with the one field \<open>triggered: Optional[bool]\<close>.
  The sixteen zones of an alarm are sixteen separate objects (the constructor builds
  each in a list comprehension), so writing one never changes another, and the list of
  zone objects is a list of values.

  A listener is a callable of the caller; it is named by a number, and a call of it is
  recorded with its arguments. A listener is taken to return normally and not to call
  back into the alarm.
\<close>

record Zone =
  triggered :: "bool option"

type_synonym listener = nat

record Alarm =
  infer_arming_state :: bool
  arming_state :: ArmingState
  zones :: "Zone list"
  arming_mode :: "ArmingMode option"
  state_change_listener :: "listener option"
  zone_change_listener :: "listener option"

datatype call =
  StateChangeCall listener ArmingState "ArmingMode option"
  | ZoneChangeCall listener int bool

datatype error = TypeError | IndexError | KeyError

record outcome =
  alarm :: Alarm
  calls :: "call list"
  raised :: "error option"

definition returns :: "Alarm \<Rightarrow> call list \<Rightarrow> outcome" where
  "returns a cs = \<lparr>alarm = a, calls = cs, raised = None\<rparr>"

definition raises :: "Alarm \<Rightarrow> error \<Rightarrow> outcome" where
  "raises a e = \<lparr>alarm = a, calls = [], raised = Some e\<rparr>"

text \<open>\<open>Alarm.__init__\<close>: state UNKNOWN, sixteen zones of unknown state, no mode, no listener.\<close>

definition Alarm_init :: "bool \<Rightarrow> Alarm" where
  "Alarm_init infer =
     \<lparr>infer_arming_state = infer, arming_state = UNKNOWN,
      zones = replicate 16 \<lparr>triggered = None\<rparr>, arming_mode = None,
      state_change_listener = None, zone_change_listener = None\<rparr>"

text \<open>\<open>on_state_change\<close> and \<open>on_zone_change\<close> replace the registered listener.\<close>

definition on_state_change :: "Alarm \<Rightarrow> listener \<Rightarrow> Alarm" where
  "on_state_change a f = a\<lparr>state_change_listener := Some f\<rparr>"

definition on_zone_change :: "Alarm \<Rightarrow> listener \<Rightarrow> Alarm" where
  "on_zone_change a f = a\<lparr>zone_change_listener := Some f\<rparr>"

text \<open>The class attribute \<open>ARM_EVENTS_MAP\<close>, a dictionary with six keys.\<close>

fun ARM_EVENTS_MAP :: "EventType \<Rightarrow> ArmingMode option" where
  "ARM_EVENTS_MAP EventType_ARMED_AWAY = Some ARMED_AWAY"
| "ARM_EVENTS_MAP EventType_ARMED_HOME = Some ARMED_HOME"
| "ARM_EVENTS_MAP EventType_ARMED_DAY = Some ARMED_DAY"
| "ARM_EVENTS_MAP EventType_ARMED_NIGHT = Some ARMED_NIGHT"
| "ARM_EVENTS_MAP EventType_ARMED_VACATION = Some ARMED_VACATION"
| "ARM_EVENTS_MAP EventType_ARMED_HIGHEST = Some ARMED_HIGHEST"
| "ARM_EVENTS_MAP _ = None"

subsection \<open>The mutators\<close>

text \<open>
  \<open>_update_arming_state\<close>: write the state and call the state listener with the new
  state and the recorded mode, only when the state differs from the stored one.
\<close>

definition update_arming_state :: "Alarm \<Rightarrow> ArmingState \<Rightarrow> outcome" where
  "update_arming_state a state =
     (if arming_state a \<noteq> state then
        returns (a\<lparr>arming_state := state\<rparr>)
          (case state_change_listener a of
             None \<Rightarrow> []
           | Some f \<Rightarrow> [StateChangeCall f state (arming_mode a)])
      else returns a [])"

text \<open>
  Python's list indexing \<open>xs[i]\<close> on a list of length \<open>n\<close>: a negative index counts
  from the end, and an index outside \<open>-n .. n-1\<close> raises IndexError (\<open>None\<close> here).
\<close>

definition list_index :: "nat \<Rightarrow> int \<Rightarrow> nat option" where
  "list_index n i =
     (let j = (if i < 0 then int n + i else i)
      in if 0 \<le> j \<and> j < int n then Some (nat j) else None)"

text \<open>
  \<open>_update_zone\<close>: \<open>self.zones[zone_id - 1]\<close> raises TypeError when the zone number is
  absent (\<open>None - 1\<close>) and IndexError when the index is out of range; otherwise the
  zone is written and the zone listener called only when the value differs.
\<close>

definition update_zone :: "Alarm \<Rightarrow> int option \<Rightarrow> bool \<Rightarrow> outcome" where
  "update_zone a zone_id state =
     (case zone_id of
        None \<Rightarrow> raises a TypeError
      | Some zid \<Rightarrow>
          (case list_index (length (zones a)) (zid - 1) of
             None \<Rightarrow> raises a IndexError
           | Some j \<Rightarrow>
               if triggered (zones a ! j) \<noteq> Some state then
                 returns (a\<lparr>zones := (zones a)[j := (zones a ! j)\<lparr>triggered := Some state\<rparr>]\<rparr>)
                   (case zone_change_listener a of
                      None \<Rightarrow> []
                    | Some f \<Rightarrow> [ZoneChangeCall f zid state])
               else returns a []))"

subsection \<open>The handlers\<close>

text \<open>
  \<open>_handle_arming_update\<close>: four tests in order, each returning at once, and the
  fallback, which depends on the configuration flag.
\<close>

definition handle_arming_update :: "Alarm \<Rightarrow> ArmingStatus list \<Rightarrow> outcome" where
  "handle_arming_update a status =
     (if status = [AREA_1_ARMED] then update_arming_state a EXIT_DELAY
      else if MONITOR_ARMED \<in> set status then update_arming_state a ARMED_MONITOR
      else if arming_state a = TRIGGERED then update_arming_state a TRIGGERED
      else if AREA_1_ARMED \<in> set status \<and> AREA_1_FULLY_ARMED \<in> set status
        then update_arming_state a ARMED
      else if infer_arming_state a then
        (if arming_state a = UNKNOWN then update_arming_state a DISARMED
         else returns a [])
      else update_arming_state a DISARMED)"

text \<open>
  \<open>_handle_zone_input_update\<close>: the loop over \<open>enumerate(self.zones)\<close>, as a
  recursion over the indices. An exception ends the loop and keeps what the earlier
  rounds wrote and called.
\<close>

definition after_calls :: "call list \<Rightarrow> outcome \<Rightarrow> outcome" where
  "after_calls cs r = r\<lparr>calls := cs @ calls r\<rparr>"

fun zone_input_loop :: "nat list \<Rightarrow> ZoneFlag list \<Rightarrow> Alarm \<Rightarrow> outcome" where
  "zone_input_loop [] included_zones a = returns a []"
| "zone_input_loop (i # rest) included_zones a =
     (let zone_id = i + 1 in
      case Zone_by_name zone_id of
        None \<Rightarrow> raises a KeyError
      | Some name \<Rightarrow>
          (let r = update_zone a (Some (int zone_id)) (name \<in> set included_zones) in
           case raised r of
             Some e \<Rightarrow> r
           | None \<Rightarrow> after_calls (calls r) (zone_input_loop rest included_zones (alarm r))))"

definition handle_zone_input_update :: "Alarm \<Rightarrow> ZoneFlag list \<Rightarrow> outcome" where
  "handle_zone_input_update a included_zones =
     zone_input_loop [0 ..< length (zones a)] included_zones a"

text \<open>\<open>_handle_system_status_event\<close>: the chain of \<open>elif\<close> on the event type.\<close>

definition handle_system_status_event :: "Alarm \<Rightarrow> EventType \<Rightarrow> int option \<Rightarrow> outcome" where
  "handle_system_status_event a type zone =
     (if type = EventType_UNSEALED then update_zone a zone True
      else if type = EventType_SEALED then update_zone a zone False
      else if type = EventType_ALARM then update_arming_state a TRIGGERED
      else if type = EventType_ALARM_RESTORE then
        (if arming_state a \<noteq> DISARMED then update_arming_state a ARMED else returns a [])
      else if type = EventType_ENTRY_DELAY_START then update_arming_state a ENTRY_DELAY
      else if type = EventType_ENTRY_DELAY_END then returns a []
      else if type = EventType_EXIT_DELAY_START then update_arming_state a EXIT_DELAY
      else if type = EventType_EXIT_DELAY_END then
        (if arming_state a = EXIT_DELAY then update_arming_state a ARMED else returns a [])
      else if ARM_EVENTS_MAP type \<noteq> None then
        update_arming_state (a\<lparr>arming_mode := ARM_EVENTS_MAP type\<rparr>) ARMING
      else if type = EventType_DISARMED then
        update_arming_state (a\<lparr>arming_mode := None\<rparr>) DISARMED
      else if type = EventType_ARMING_DELAYED then returns a []
      else returns a [])"

text \<open>\<open>handle_event\<close>: dispatch on the class of the event.\<close>

fun handle_event :: "Alarm \<Rightarrow> Event \<Rightarrow> outcome" where
  "handle_event a (ArmingUpdate status) = handle_arming_update a status"
| "handle_event a (ZoneUpdate request_id included_zones) =
     (if request_id = ZONE_INPUT_UNSEALED then handle_zone_input_update a included_zones
      else returns a [])"
| "handle_event a (SystemStatusEvent type zone) = handle_system_status_event a type zone"
| "handle_event a OtherEvent = returns a []"

text \<open>Handling a sequence of events, stopping at the first exception.\<close>

fun handle_events :: "Alarm \<Rightarrow> Event list \<Rightarrow> outcome" where
  "handle_events a [] = returns a []"
| "handle_events a (e # es) =
     (let r = handle_event a e in
      case raised r of
        Some x \<Rightarrow> r
      | None \<Rightarrow> after_calls (calls r) (handle_events (alarm r) es))"

subsection \<open>Observing the listener calls\<close>

text \<open>A call of the state-change listener, as opposed to one of the zone-change listener.\<close>

fun is_state_call :: "call \<Rightarrow> bool" where
  "is_state_call (StateChangeCall f s m) = True"
| "is_state_call (ZoneChangeCall f z b) = False"

text \<open>
  Whether the included zones hold the flag of a zone number, and the call of the
  zone-change listener that the zone in list position \<open>i\<close> (zone number \<open>i + 1\<close>)
  gets when its stored value differs from that.
\<close>

definition zone_included :: "ZoneFlag list \<Rightarrow> nat \<Rightarrow> bool" where
  "zone_included included_zones zone_id =
     (case Zone_by_name zone_id of None \<Rightarrow> False | Some name \<Rightarrow> name \<in> set included_zones)"

definition zone_calls :: "Alarm \<Rightarrow> ZoneFlag list \<Rightarrow> nat \<Rightarrow> call list" where
  "zone_calls a included_zones i =
     (if triggered (zones a ! i) \<noteq> Some (zone_included included_zones (i + 1)) then
        (case zone_change_listener a of
           None \<Rightarrow> []
         | Some f \<Rightarrow> [ZoneChangeCall f (int (i + 1)) (zone_included included_zones (i + 1))])
      else [])"

text \<open>
  The recorded mode is present only in a state other than UNKNOWN and DISARMED, that
  is, in one of ARMING, EXIT_DELAY, ARMED, ARMED_MONITOR, ENTRY_DELAY and TRIGGERED.
\<close>

definition mode_only_when_armed :: "Alarm \<Rightarrow> bool" where
  "mode_only_when_armed a =
     (arming_mode a = None \<or> (arming_state a \<noteq> UNKNOWN \<and> arming_state a \<noteq> DISARMED))"

section \<open>Properties\<close>

subsection \<open>The mutators\<close>

lemma update_arming_state_sets:
  "arming_state (alarm (update_arming_state a s)) = s"
  "raised (update_arming_state a s) = None"
  by (simp_all add: update_arming_state_def returns_def)

text \<open>
  A status list that holds each flag once is the list \<open>[x]\<close> exactly when its
  flags are the set \<open>{x}\<close>.
\<close>

lemma status_single:
  assumes "distinct status"
  shows "(status = [x]) = (set status = {x})"
proof
  assume "status = [x]"
  then show "set status = {x}" by simp
next
  assume s: "set status = {x}"
  have "length status = card (set status)"
    using assms by (simp add: distinct_card)
  then have "length status = 1" using s by simp
  then obtain y where "status = [y]"
    by (cases status) auto
  then show "status = [x]" using s by simp
qed

subsection \<open>Arming updates\<close>

text \<open>
  Claim C1. An ArmingUpdate is decided by ordered rules, the first match winning:
  (1) the status flags are exactly \<open>{AREA_1_ARMED}\<close>: the state becomes EXIT_DELAY;
  (2) else the status contains MONITOR_ARMED: ARMED_MONITOR; (3) else the current state
  is TRIGGERED: it stays TRIGGERED; (4) else the status contains AREA_1_ARMED and
  AREA_1_FULLY_ARMED: ARMED. In particular a status with MONITOR_ARMED, AREA_1_ARMED
  and AREA_1_FULLY_ARMED gives ARMED_MONITOR. The status is a set of flags, held as a
  list with each flag once; rule 1 compares the list with \<open>[AREA_1_ARMED]\<close>, and
  the other rules do not depend on how the list holds the flags.
\<close>

theorem arming_update_priority:
  "(distinct status \<and> set status = {AREA_1_ARMED} \<longrightarrow>
      arming_state (alarm (handle_event a (ArmingUpdate status))) = EXIT_DELAY) \<and>
   (set status \<noteq> {AREA_1_ARMED} \<and> MONITOR_ARMED \<in> set status \<longrightarrow>
      arming_state (alarm (handle_event a (ArmingUpdate status))) = ARMED_MONITOR) \<and>
   (set status \<noteq> {AREA_1_ARMED} \<and> MONITOR_ARMED \<notin> set status \<and>
    arming_state a = TRIGGERED \<longrightarrow>
      arming_state (alarm (handle_event a (ArmingUpdate status))) = TRIGGERED) \<and>
   (set status \<noteq> {AREA_1_ARMED} \<and> MONITOR_ARMED \<notin> set status \<and>
    arming_state a \<noteq> TRIGGERED \<and>
    AREA_1_ARMED \<in> set status \<and> AREA_1_FULLY_ARMED \<in> set status \<longrightarrow>
      arming_state (alarm (handle_event a (ArmingUpdate status))) = ARMED) \<and>
   (MONITOR_ARMED \<in> set status \<and> AREA_1_ARMED \<in> set status \<and>
    AREA_1_FULLY_ARMED \<in> set status \<longrightarrow>
      arming_state (alarm (handle_event a (ArmingUpdate status))) = ARMED_MONITOR)"
proof (intro conjI impI)
  assume "distinct status \<and> set status = {AREA_1_ARMED}"
  then have "status = [AREA_1_ARMED]"
    using status_single [of status AREA_1_ARMED] by simp
  then show "arming_state (alarm (handle_event a (ArmingUpdate status))) = EXIT_DELAY"
    by (simp add: handle_arming_update_def update_arming_state_sets)
next
  assume h: "set status \<noteq> {AREA_1_ARMED} \<and> MONITOR_ARMED \<in> set status"
  then have "status \<noteq> [AREA_1_ARMED]" by auto
  then show "arming_state (alarm (handle_event a (ArmingUpdate status))) = ARMED_MONITOR"
    using h by (simp add: handle_arming_update_def update_arming_state_sets)
next
  assume h: "set status \<noteq> {AREA_1_ARMED} \<and> MONITOR_ARMED \<notin> set status \<and>
    arming_state a = TRIGGERED"
  then have "status \<noteq> [AREA_1_ARMED]" by auto
  then show "arming_state (alarm (handle_event a (ArmingUpdate status))) = TRIGGERED"
    using h by (simp add: handle_arming_update_def update_arming_state_sets)
next
  assume h: "set status \<noteq> {AREA_1_ARMED} \<and> MONITOR_ARMED \<notin> set status \<and>
    arming_state a \<noteq> TRIGGERED \<and>
    AREA_1_ARMED \<in> set status \<and> AREA_1_FULLY_ARMED \<in> set status"
  then have "status \<noteq> [AREA_1_ARMED]" by auto
  then show "arming_state (alarm (handle_event a (ArmingUpdate status))) = ARMED"
    using h by (simp add: handle_arming_update_def update_arming_state_sets)
next
  assume h: "MONITOR_ARMED \<in> set status \<and> AREA_1_ARMED \<in> set status \<and>
    AREA_1_FULLY_ARMED \<in> set status"
  then have "status \<noteq> [AREA_1_ARMED]" by auto
  then show "arming_state (alarm (handle_event a (ArmingUpdate status))) = ARMED_MONITOR"
    using h by (simp add: handle_arming_update_def update_arming_state_sets)
qed

theorem arming_update_priority_witness:
  "distinct [AREA_1_ARMED] \<and>
   arming_state (alarm (handle_event (Alarm_init False) (ArmingUpdate [AREA_1_ARMED]))) = EXIT_DELAY \<and>
   distinct [AREA_1_ARMED, AREA_1_FULLY_ARMED, MONITOR_ARMED] \<and>
   arming_state (alarm (handle_event (Alarm_init False)
     (ArmingUpdate [AREA_1_ARMED, AREA_1_FULLY_ARMED, MONITOR_ARMED]))) = ARMED_MONITOR \<and>
   distinct [AREA_1_ARMED, AREA_1_FULLY_ARMED] \<and>
   arming_state (alarm (handle_event (Alarm_init False)
     (ArmingUpdate [AREA_1_ARMED, AREA_1_FULLY_ARMED]))) = ARMED \<and>
   arming_state (alarm (handle_event ((Alarm_init False)\<lparr>arming_state := TRIGGERED\<rparr>)
     (ArmingUpdate [AREA_1_ARMED, AREA_1_FULLY_ARMED]))) = TRIGGERED"
  using arming_update_priority [of "[AREA_1_ARMED]" "Alarm_init False"]
    arming_update_priority [of "[AREA_1_ARMED, AREA_1_FULLY_ARMED, MONITOR_ARMED]" "Alarm_init False"]
    arming_update_priority [of "[AREA_1_ARMED, AREA_1_FULLY_ARMED]" "Alarm_init False"]
    arming_update_priority [of "[AREA_1_ARMED, AREA_1_FULLY_ARMED]"
      "(Alarm_init False)\<lparr>arming_state := TRIGGERED\<rparr>"]
  by (simp add: Alarm_init_def)

text \<open>
  Claim C2. An ArmingUpdate that matches none of the rules 1 to 4 (an empty status among
  them): with \<open>infer_arming_state\<close> enabled the state becomes DISARMED only when it is
  UNKNOWN and is otherwise left as it is; with the flag disabled the state always
  becomes DISARMED. Nothing else of the alarm changes, and nothing is raised.
\<close>

theorem arming_update_fallback:
  assumes "set status \<noteq> {AREA_1_ARMED}" and "MONITOR_ARMED \<notin> set status"
    and "arming_state a \<noteq> TRIGGERED"
    and "\<not> (AREA_1_ARMED \<in> set status \<and> AREA_1_FULLY_ARMED \<in> set status)"
  shows "alarm (handle_event a (ArmingUpdate status)) =
           a\<lparr>arming_state :=
               (if infer_arming_state a \<and> arming_state a \<noteq> UNKNOWN then arming_state a
                else DISARMED)\<rparr> \<and>
         raised (handle_event a (ArmingUpdate status)) = None"
proof -
  have "status \<noteq> [AREA_1_ARMED]" using assms(1) by auto
  then show ?thesis
    using assms(2-4)
    by (auto simp: handle_arming_update_def update_arming_state_def returns_def)
qed

theorem arming_update_fallback_witness:
  "alarm (handle_event ((Alarm_init True)\<lparr>arming_state := ARMED\<rparr>) (ArmingUpdate [])) =
     (Alarm_init True)\<lparr>arming_state := ARMED\<rparr> \<and>
   alarm (handle_event (Alarm_init True) (ArmingUpdate [])) =
     (Alarm_init True)\<lparr>arming_state := DISARMED\<rparr> \<and>
   alarm (handle_event ((Alarm_init False)\<lparr>arming_state := ARMED\<rparr>)
       (ArmingUpdate [AREA_1_FULLY_ARMED])) =
     (Alarm_init False)\<lparr>arming_state := DISARMED\<rparr>"
  using arming_update_fallback [of "[]" "(Alarm_init True)\<lparr>arming_state := ARMED\<rparr>"]
    arming_update_fallback [of "[]" "Alarm_init True"]
    arming_update_fallback [of "[AREA_1_FULLY_ARMED]" "(Alarm_init False)\<lparr>arming_state := ARMED\<rparr>"]
  by (simp add: Alarm_init_def)

subsection \<open>System status events\<close>

text \<open>
  Claim C5. From the state DISARMED, the events ARMED_AWAY, EXIT_DELAY_START and
  EXIT_DELAY_END give the states ARMING (with the recorded mode ARMED_AWAY), EXIT_DELAY
  and ARMED; and EXIT_DELAY_END in a state other than EXIT_DELAY changes nothing and
  calls no listener.
\<close>

theorem arming_cycle:
  "(arming_state a = DISARMED \<longrightarrow>
      (let r1 = handle_event a (SystemStatusEvent EventType_ARMED_AWAY z1);
           r2 = handle_event (alarm r1) (SystemStatusEvent EventType_EXIT_DELAY_START z2);
           r3 = handle_event (alarm r2) (SystemStatusEvent EventType_EXIT_DELAY_END z3)
       in arming_state (alarm r1) = ARMING \<and> arming_mode (alarm r1) = Some ARMED_AWAY \<and>
          arming_state (alarm r2) = EXIT_DELAY \<and> arming_state (alarm r3) = ARMED \<and>
          raised r1 = None \<and> raised r2 = None \<and> raised r3 = None)) \<and>
   (arming_state a \<noteq> EXIT_DELAY \<longrightarrow>
      handle_event a (SystemStatusEvent EventType_EXIT_DELAY_END z) = returns a [])"
  by (simp add: handle_system_status_event_def update_arming_state_def returns_def Let_def)

theorem arming_cycle_witness:
  "(let a = (Alarm_init False)\<lparr>arming_state := DISARMED\<rparr>;
        r1 = handle_event a (SystemStatusEvent EventType_ARMED_AWAY None);
        r2 = handle_event (alarm r1) (SystemStatusEvent EventType_EXIT_DELAY_START None);
        r3 = handle_event (alarm r2) (SystemStatusEvent EventType_EXIT_DELAY_END None)
    in arming_state (alarm r1) = ARMING \<and> arming_mode (alarm r1) = Some ARMED_AWAY \<and>
       arming_state (alarm r2) = EXIT_DELAY \<and> arming_state (alarm r3) = ARMED) \<and>
   handle_event ((Alarm_init False)\<lparr>arming_state := DISARMED\<rparr>)
       (SystemStatusEvent EventType_EXIT_DELAY_END None) =
     returns ((Alarm_init False)\<lparr>arming_state := DISARMED\<rparr>) []"
  using arming_cycle [of "(Alarm_init False)\<lparr>arming_state := DISARMED\<rparr>" None None None None]
  by (simp add: Let_def)

text \<open>
  Claim C6. The event ALARM always sets the state to TRIGGERED; in the state TRIGGERED
  an ArmingUpdate with the status \<open>{AREA_1_ARMED, AREA_1_FULLY_ARMED}\<close> changes
  nothing; and ALARM_RESTORE leaves the state ARMED exactly when the state was not
  DISARMED (a DISARMED alarm is left as it is), the recorded mode staying as it was.
\<close>

theorem alarm_and_restore:
  "arming_state (alarm (handle_event a (SystemStatusEvent EventType_ALARM z))) = TRIGGERED \<and>
   (arming_state a = TRIGGERED \<and> set status = {AREA_1_ARMED, AREA_1_FULLY_ARMED} \<longrightarrow>
      handle_event a (ArmingUpdate status) = returns a []) \<and>
   (arming_state (alarm (handle_event a (SystemStatusEvent EventType_ALARM_RESTORE z))) = ARMED)
     = (arming_state a \<noteq> DISARMED) \<and>
   (arming_state a = DISARMED \<longrightarrow>
      handle_event a (SystemStatusEvent EventType_ALARM_RESTORE z) = returns a []) \<and>
   arming_mode (alarm (handle_event a (SystemStatusEvent EventType_ALARM_RESTORE z))) =
     arming_mode a"
  by (auto simp: handle_system_status_event_def handle_arming_update_def
        update_arming_state_def returns_def)

theorem alarm_and_restore_witness:
  "handle_event ((Alarm_init False)\<lparr>arming_state := TRIGGERED\<rparr>)
       (ArmingUpdate [AREA_1_ARMED, AREA_1_FULLY_ARMED]) =
     returns ((Alarm_init False)\<lparr>arming_state := TRIGGERED\<rparr>) [] \<and>
   handle_event ((Alarm_init False)\<lparr>arming_state := DISARMED\<rparr>)
       (SystemStatusEvent EventType_ALARM_RESTORE None) =
     returns ((Alarm_init False)\<lparr>arming_state := DISARMED\<rparr>) [] \<and>
   arming_state (alarm (handle_event ((Alarm_init False)\<lparr>arming_state := TRIGGERED\<rparr>)
       (SystemStatusEvent EventType_ALARM_RESTORE None))) = ARMED"
  using alarm_and_restore [where a = "(Alarm_init False)\<lparr>arming_state := TRIGGERED\<rparr>"
      and z = None and status = "[AREA_1_ARMED, AREA_1_FULLY_ARMED]"]
    alarm_and_restore [where a = "(Alarm_init False)\<lparr>arming_state := DISARMED\<rparr>"
      and z = None and status = "[]"]
  by simp

subsection \<open>Which calls reach the state-change listener\<close>

lemma update_zone_state_calls:
  "filter is_state_call (calls (update_zone a z b)) = []"
  by (simp add: update_zone_def returns_def raises_def split: option.splits)

lemma update_zone_arming_state:
  "arming_state (alarm (update_zone a z b)) = arming_state a"
  by (simp add: update_zone_def returns_def raises_def split: option.splits)

lemma zone_input_loop_state_calls:
  "filter is_state_call (calls (zone_input_loop is inc a)) = []"
proof (induction "is" arbitrary: a)
  case Nil
  then show ?case by (simp add: returns_def)
next
  case (Cons i rest)
  then show ?case
    by (simp add: Let_def raises_def after_calls_def update_zone_state_calls
          split: option.splits)
qed

lemma update_arming_state_same:
  "arming_state (alarm (update_arming_state a s)) = arming_state a \<Longrightarrow>
   calls (update_arming_state a s) = []"
  by (simp add: update_arming_state_def returns_def split: if_splits)

lemma update_arming_state_mode_same:
  "arming_state (alarm (update_arming_state (a\<lparr>arming_mode := m\<rparr>) s)) = arming_state a \<Longrightarrow>
   calls (update_arming_state (a\<lparr>arming_mode := m\<rparr>) s) = []"
  by (simp add: update_arming_state_def returns_def split: if_splits)

lemma handle_arming_update_same:
  "arming_state (alarm (handle_arming_update a st)) = arming_state a \<Longrightarrow>
   calls (handle_arming_update a st) = []"
  by (auto simp: handle_arming_update_def update_arming_state_same returns_def
        split: if_splits)

lemma handle_system_status_event_same:
  "arming_state (alarm (handle_system_status_event a t z)) = arming_state a \<Longrightarrow>
   filter is_state_call (calls (handle_system_status_event a t z)) = []"
  by (auto simp: handle_system_status_event_def update_arming_state_same
        update_arming_state_mode_same update_zone_state_calls returns_def
        split: if_splits)

text \<open>
  Claim C10. A change of the recorded mode alone is never notified: an ARMED_x event
  handled in the state ARMING overwrites the recorded mode and calls no listener; and
  for every event, when the arming state is the same after the event as before, the
  state-change listener has not been called.
\<close>

theorem mode_change_not_notified:
  "(arming_state a = ARMING \<and> ARM_EVENTS_MAP type = Some m \<longrightarrow>
      handle_event a (SystemStatusEvent type z) = returns (a\<lparr>arming_mode := Some m\<rparr>) []) \<and>
   (arming_state (alarm (handle_event a e)) = arming_state a \<longrightarrow>
      filter is_state_call (calls (handle_event a e)) = [])"
proof (intro conjI impI)
  assume h: "arming_state a = ARMING \<and> ARM_EVENTS_MAP type = Some m"
  then show "handle_event a (SystemStatusEvent type z) = returns (a\<lparr>arming_mode := Some m\<rparr>) []"
    by (cases type) (simp_all add: handle_system_status_event_def update_arming_state_def)
next
  assume same: "arming_state (alarm (handle_event a e)) = arming_state a"
  show "filter is_state_call (calls (handle_event a e)) = []"
  proof (cases e)
    case (ArmingUpdate st)
    then show ?thesis using same by (simp add: handle_arming_update_same)
  next
    case (ZoneUpdate rid inc)
    then show ?thesis
      by (simp add: handle_zone_input_update_def zone_input_loop_state_calls returns_def)
  next
    case (SystemStatusEvent t z')
    then show ?thesis using same by (simp add: handle_system_status_event_same)
  next
    case OtherEvent
    then show ?thesis by (simp add: returns_def)
  qed
qed

theorem mode_change_not_notified_witness:
  "handle_event ((on_state_change (Alarm_init False) 0)\<lparr>arming_state := ARMING, arming_mode := Some ARMED_AWAY\<rparr>)
       (SystemStatusEvent EventType_ARMED_HOME None) =
     returns ((on_state_change (Alarm_init False) 0)\<lparr>arming_state := ARMING, arming_mode := Some ARMED_HOME\<rparr>) [] \<and>
   filter is_state_call (calls (handle_event
       ((on_state_change (Alarm_init False) 0)\<lparr>arming_state := ARMING, arming_mode := Some ARMED_AWAY\<rparr>)
       (SystemStatusEvent EventType_ARMED_HOME None))) = []"
  using mode_change_not_notified [where a = "(on_state_change (Alarm_init False) 0)\<lparr>arming_state := ARMING, arming_mode := Some ARMED_AWAY\<rparr>"
      and type = EventType_ARMED_HOME and m = ARMED_HOME and z = None
      and e = "SystemStatusEvent EventType_ARMED_HOME None"]
  by (simp add: returns_def)

subsection \<open>Zone numbers outside 1 to 16\<close>

text \<open>
  Claim C9. A SystemStatusEvent of type UNSEALED or SEALED with the zone number 0 is not
  ignored: the index \<open>-1\<close> counts from the end of the list, so the event reads and
  writes the zone in slot 16, and on a change of value the zone-change listener is called
  with the zone number 0.
\<close>

theorem zone_zero_writes_slot_16:
  assumes "length (zones a) = 16"
  shows "handle_event a (SystemStatusEvent EventType_UNSEALED (Some 0)) =
           (if triggered (zones a ! 15) \<noteq> Some True then
              returns (a\<lparr>zones := (zones a)[15 := (zones a ! 15)\<lparr>triggered := Some True\<rparr>]\<rparr>)
                (case zone_change_listener a of None \<Rightarrow> [] | Some f \<Rightarrow> [ZoneChangeCall f 0 True])
            else returns a []) \<and>
         handle_event a (SystemStatusEvent EventType_SEALED (Some 0)) =
           (if triggered (zones a ! 15) \<noteq> Some False then
              returns (a\<lparr>zones := (zones a)[15 := (zones a ! 15)\<lparr>triggered := Some False\<rparr>]\<rparr>)
                (case zone_change_listener a of None \<Rightarrow> [] | Some f \<Rightarrow> [ZoneChangeCall f 0 False])
            else returns a [])"
  using assms
  by (simp add: handle_system_status_event_def update_zone_def list_index_def)

theorem zone_zero_writes_slot_16_witness:
  "length (zones (on_zone_change (Alarm_init False) 5)) = 16 \<and>
   handle_event (on_zone_change (Alarm_init False) 5) (SystemStatusEvent EventType_UNSEALED (Some 0)) =
     returns ((on_zone_change (Alarm_init False) 5)
        \<lparr>zones := replicate 15 \<lparr>triggered = None\<rparr> @ [\<lparr>triggered = Some True\<rparr>]\<rparr>)
       [ZoneChangeCall 5 0 True]"
  using zone_zero_writes_slot_16 [of "on_zone_change (Alarm_init False) 5"]
  by (simp add: on_zone_change_def Alarm_init_def numeral_eq_Suc)

subsection \<open>The loop over the zones\<close>

lemma Zone_by_name_Some:
  "i < 16 \<Longrightarrow> \<exists>name. Zone_by_name (Suc i) = Some name"
  by (simp add: Zone_by_name_def, arith)

lemma Zone_by_name_None:
  "zone_id = 0 \<or> 16 < zone_id \<Longrightarrow> Zone_by_name zone_id = None"
  by (auto simp: Zone_by_name_def)

lemma list_index_Suc:
  "i < n \<Longrightarrow> list_index n (int (Suc i) - 1) = Some i"
  by (simp add: list_index_def)

lemma update_zone_valid:
  assumes "i < length (zones a)"
  shows "update_zone a (Some (int (Suc i))) b =
           returns (a\<lparr>zones := (zones a)[i := (zones a ! i)\<lparr>triggered := Some b\<rparr>]\<rparr>)
             (if triggered (zones a ! i) \<noteq> Some b then
                (case zone_change_listener a of
                   None \<Rightarrow> []
                 | Some f \<Rightarrow> [ZoneChangeCall f (int (Suc i)) b])
              else [])"
proof (cases "triggered (zones a ! i) = Some b")
  case True
  have z: "(zones a ! i)\<lparr>triggered := Some b\<rparr> = zones a ! i"
    using True by (cases "zones a ! i") simp
  have same: "a\<lparr>zones := (zones a)[i := (zones a ! i)\<lparr>triggered := Some b\<rparr>]\<rparr> = a"
    unfolding z by simp
  have "update_zone a (Some (int (Suc i))) b = returns a []"
    using assms True by (simp add: update_zone_def list_index_Suc del: of_nat_Suc)
  then show ?thesis
    unfolding same using True by simp
next
  case False
  then show ?thesis
    using assms by (simp add: update_zone_def list_index_Suc del: of_nat_Suc)
qed

lemma zone_input_loop_step:
  assumes "i < length (zones a)" and "i < 16"
  shows "zone_input_loop (i # rest) inc a =
           after_calls (zone_calls a inc i)
             (zone_input_loop rest inc
                (a\<lparr>zones := (zones a)[i := (zones a ! i)\<lparr>triggered := Some (zone_included inc (i + 1))\<rparr>]\<rparr>))"
proof -
  obtain name where n: "Zone_by_name (Suc i) = Some name"
    using Zone_by_name_Some [OF assms(2)] by blast
  then have inc: "zone_included inc (Suc i) = (name \<in> set inc)"
    by (simp add: zone_included_def)
  show ?thesis
    using n inc
    by (simp add: Let_def returns_def zone_calls_def update_zone_valid [OF assms(1)]
          del: of_nat_Suc split: option.split)
qed

lemma zone_input_loop_frame:
  assumes "\<forall>i \<in> set is. i < length (zones a) \<and> i < 16"
  shows "raised (zone_input_loop is inc a) = None \<and>
         length (zones (alarm (zone_input_loop is inc a))) = length (zones a) \<and>
         infer_arming_state (alarm (zone_input_loop is inc a)) = infer_arming_state a \<and>
         arming_state (alarm (zone_input_loop is inc a)) = arming_state a \<and>
         arming_mode (alarm (zone_input_loop is inc a)) = arming_mode a \<and>
         state_change_listener (alarm (zone_input_loop is inc a)) = state_change_listener a \<and>
         zone_change_listener (alarm (zone_input_loop is inc a)) = zone_change_listener a"
  using assms
proof (induction "is" arbitrary: a)
  case Nil
  then show ?case by (simp add: returns_def)
next
  case (Cons i rest)
  let ?a1 = "a\<lparr>zones := (zones a)[i := (zones a ! i)\<lparr>triggered := Some (zone_included inc (i + 1))\<rparr>]\<rparr>"
  have i: "i < length (zones a)" "i < 16" using Cons.prems by simp_all
  have "\<forall>j \<in> set rest. j < length (zones ?a1) \<and> j < 16" using Cons.prems by simp
  from Cons.IH [OF this] show ?case
    unfolding zone_input_loop_step [OF i] by (simp add: after_calls_def)
qed

lemma zone_input_loop_zones:
  assumes "\<forall>i \<in> set is. i < length (zones a) \<and> i < 16" and "j < length (zones a)"
  shows "triggered (zones (alarm (zone_input_loop is inc a)) ! j) =
           (if j \<in> set is then Some (zone_included inc (j + 1)) else triggered (zones a ! j))"
  using assms
proof (induction "is" arbitrary: a)
  case Nil
  then show ?case by (simp add: returns_def)
next
  case (Cons i rest)
  let ?a1 = "a\<lparr>zones := (zones a)[i := (zones a ! i)\<lparr>triggered := Some (zone_included inc (i + 1))\<rparr>]\<rparr>"
  have i: "i < length (zones a)" "i < 16" using Cons.prems by simp_all
  have r: "\<forall>j \<in> set rest. j < length (zones ?a1) \<and> j < 16" using Cons.prems by simp
  have j: "j < length (zones ?a1)" using Cons.prems by simp
  from Cons.IH [OF r j] show ?case
    unfolding zone_input_loop_step [OF i] using Cons.prems(2)
    by (simp add: after_calls_def nth_list_update)
qed

lemma zone_input_loop_calls:
  assumes "\<forall>i \<in> set is. i < length (zones a) \<and> i < 16" and "distinct is"
  shows "calls (zone_input_loop is inc a) = concat (map (zone_calls a inc) is)"
  using assms
proof (induction "is" arbitrary: a)
  case Nil
  then show ?case by (simp add: returns_def)
next
  case (Cons i rest)
  let ?a1 = "a\<lparr>zones := (zones a)[i := (zones a ! i)\<lparr>triggered := Some (zone_included inc (i + 1))\<rparr>]\<rparr>"
  have i: "i < length (zones a)" "i < 16" using Cons.prems by simp_all
  have r: "\<forall>j \<in> set rest. j < length (zones ?a1) \<and> j < 16" using Cons.prems by simp
  have d: "distinct rest" "i \<notin> set rest" using Cons.prems by simp_all
  have same: "map (zone_calls ?a1 inc) rest = map (zone_calls a inc) rest"
  proof (rule map_cong [OF refl])
    fix j assume "j \<in> set rest"
    then have "j \<noteq> i" using d by auto
    then show "zone_calls ?a1 inc j = zone_calls a inc j"
      by (simp add: zone_calls_def)
  qed
  from Cons.IH [OF r d(1)] same show ?case
    unfolding zone_input_loop_step [OF i] by (simp add: after_calls_def cong: map_cong)
qed

lemma Zone_by_name_included:
  "Zone_by_name k = Some name \<Longrightarrow> zone_included inc k = (name \<in> set inc)"
  by (simp add: zone_included_def)

text \<open>
  Claim C4. A ZoneUpdate of the kind "zone input unsealed" with its included zones,
  handled by an alarm with its sixteen zones: afterwards every zone 1 to 16 has
  \<open>triggered\<close> true if its flag is among the included zones and false otherwise,
  whatever it held before; and the zone-change listener is called, in the order of the
  zones, for exactly the zones whose stored value differed from the new one.
\<close>

theorem zone_input_update_sets_all:
  assumes "length (zones a) = 16"
  shows "raised (handle_event a (ZoneUpdate ZONE_INPUT_UNSEALED inc)) = None \<and>
         length (zones (alarm (handle_event a (ZoneUpdate ZONE_INPUT_UNSEALED inc)))) = 16 \<and>
         (\<forall>i<16. \<exists>name. Zone_by_name (i + 1) = Some name \<and>
            triggered (zones (alarm (handle_event a (ZoneUpdate ZONE_INPUT_UNSEALED inc))) ! i) =
              Some (name \<in> set inc)) \<and>
         calls (handle_event a (ZoneUpdate ZONE_INPUT_UNSEALED inc)) =
           concat (map (zone_calls a inc) [0..<16])"
proof -
  have all: "\<forall>i \<in> set [0..<16]. i < length (zones a) \<and> i < 16"
    using assms by simp
  have h: "handle_event a (ZoneUpdate ZONE_INPUT_UNSEALED inc) = zone_input_loop [0..<16] inc a"
    using assms by (simp add: handle_zone_input_update_def)
  have frame: "raised (zone_input_loop [0..<16] inc a) = None"
    "length (zones (alarm (zone_input_loop [0..<16] inc a))) = 16"
    using zone_input_loop_frame [OF all, of inc] assms by simp_all
  have c: "calls (zone_input_loop [0..<16] inc a) = concat (map (zone_calls a inc) [0..<16])"
    using zone_input_loop_calls [OF all] by simp
  have z: "\<exists>name. Zone_by_name (i + 1) = Some name \<and>
             triggered (zones (alarm (zone_input_loop [0..<16] inc a)) ! i) = Some (name \<in> set inc)"
    if lt: "i < 16" for i
  proof -
    obtain name where n: "Zone_by_name (i + 1) = Some name"
      using Zone_by_name_Some [OF lt] by auto
    have "triggered (zones (alarm (zone_input_loop [0..<16] inc a)) ! i) =
            Some (zone_included inc (i + 1))"
      using zone_input_loop_zones [OF all, of i inc] lt assms by simp
    then show ?thesis
      using n Zone_by_name_included [OF n, of inc] by simp
  qed
  show ?thesis
    unfolding h using frame c z by blast
qed

theorem zone_input_update_sets_all_witness:
  "length (zones ((on_zone_change (Alarm_init False) 7)\<lparr>zones := replicate 16 \<lparr>triggered = Some True\<rparr>\<rparr>)) = 16 \<and>
   raised (handle_event ((on_zone_change (Alarm_init False) 7)\<lparr>zones := replicate 16 \<lparr>triggered = Some True\<rparr>\<rparr>)
      (ZoneUpdate ZONE_INPUT_UNSEALED [ZONE_3, ZONE_7])) = None \<and>
   triggered (zones (alarm (handle_event ((on_zone_change (Alarm_init False) 7)\<lparr>zones := replicate 16 \<lparr>triggered = Some True\<rparr>\<rparr>)
      (ZoneUpdate ZONE_INPUT_UNSEALED [ZONE_3, ZONE_7]))) ! 2) = Some True \<and>
   triggered (zones (alarm (handle_event ((on_zone_change (Alarm_init False) 7)\<lparr>zones := replicate 16 \<lparr>triggered = Some True\<rparr>\<rparr>)
      (ZoneUpdate ZONE_INPUT_UNSEALED [ZONE_3, ZONE_7]))) ! 3) = Some False"
proof -
  let ?a = "(on_zone_change (Alarm_init False) 7)\<lparr>zones := replicate 16 \<lparr>triggered = Some True\<rparr>\<rparr>"
  have len: "length (zones ?a) = 16" by simp
  note t = zone_input_update_sets_all [OF len, of "[ZONE_3, ZONE_7]"]
  have z: "\<exists>name. Zone_by_name (i + 1) = Some name \<and>
      triggered (zones (alarm (handle_event ?a (ZoneUpdate ZONE_INPUT_UNSEALED [ZONE_3, ZONE_7]))) ! i) =
        Some (name \<in> set [ZONE_3, ZONE_7])" if "i < 16" for i
    using t that by blast
  have z2: "triggered (zones (alarm (handle_event ?a (ZoneUpdate ZONE_INPUT_UNSEALED [ZONE_3, ZONE_7]))) ! 2) = Some True"
    using z [of 2] by (simp add: Zone_by_name_def)
  have z3: "triggered (zones (alarm (handle_event ?a (ZoneUpdate ZONE_INPUT_UNSEALED [ZONE_3, ZONE_7]))) ! 3) = Some False"
    using z [of 3] by (simp add: Zone_by_name_def)
  show ?thesis using len z2 z3 t [THEN conjunct1] by simp
qed

subsection \<open>Exceptions\<close>

lemma update_zone_raised:
  assumes "length (zones a) = 16"
  shows "raised (update_zone a z b) =
           (case z of
              None \<Rightarrow> Some TypeError
            | Some k \<Rightarrow> if - 15 \<le> k \<and> k \<le> 16 then None else Some IndexError)"
  using assms
  by (auto simp: update_zone_def list_index_def raises_def returns_def Let_def
        split: option.splits)

lemma update_zone_raise_keeps:
  "raised (update_zone a z b) \<noteq> None \<Longrightarrow>
   alarm (update_zone a z b) = a \<and> calls (update_zone a z b) = []"
  by (auto simp: update_zone_def raises_def returns_def split: option.splits if_splits)

lemma handle_arming_update_raised: "raised (handle_arming_update a st) = None"
  by (simp add: handle_arming_update_def update_arming_state_sets returns_def)

lemma handle_zone_input_update_raised:
  assumes "length (zones a) = 16"
  shows "raised (handle_zone_input_update a inc) = None"
proof -
  have "\<forall>i \<in> set [0..<16]. i < length (zones a) \<and> i < 16"
    using assms by simp
  from zone_input_loop_frame [OF this, of inc] show ?thesis
    using assms by (simp add: handle_zone_input_update_def)
qed

lemma handle_system_status_event_raised:
  assumes "length (zones a) = 16"
  shows "raised (handle_system_status_event a t z) =
           (if t = EventType_UNSEALED \<or> t = EventType_SEALED then
              (case z of
                 None \<Rightarrow> Some TypeError
               | Some k \<Rightarrow> if - 15 \<le> k \<and> k \<le> 16 then None else Some IndexError)
            else None)"
  by (simp add: handle_system_status_event_def update_zone_raised [OF assms]
        update_arming_state_sets returns_def)

lemma handle_system_status_event_raise_keeps:
  "raised (handle_system_status_event a t z) \<noteq> None \<Longrightarrow>
   alarm (handle_system_status_event a t z) = a \<and> calls (handle_system_status_event a t z) = []"
  by (simp add: handle_system_status_event_def update_zone_raise_keeps
        update_arming_state_sets returns_def split: if_splits)

text \<open>
  Claim C7 says that handling an event never raises, a SystemStatusEvent of type SEALED
  or UNSEALED whose zone is absent or outside 1 to 16 included. On a fresh alarm the
  event UNSEALED with the zone number 17 raises IndexError, and the event SEALED with no
  zone number raises TypeError.
\<close>

theorem bad_zone_raises:
  "raised (handle_event (Alarm_init False) (SystemStatusEvent EventType_UNSEALED (Some 17))) =
     Some IndexError \<and>
   raised (handle_event (Alarm_init False) (SystemStatusEvent EventType_SEALED None)) =
     Some TypeError"
  by (simp add: handle_system_status_event_def update_zone_def list_index_def raises_def
        Alarm_init_def)

text \<open>
  Claim C7, as amended. On an alarm with its sixteen zones, handling an event raises
  exactly when the event is a SystemStatusEvent of type UNSEALED or SEALED whose zone
  number is absent (TypeError) or is not between \<open>-15\<close> and 16 (IndexError); the
  exception leaves the alarm as it was and no listener is called. Every other event
  returns: an event of another class, a ZoneUpdate of another request kind, and a
  SystemStatusEvent of type ENTRY_DELAY_END, ARMING_DELAYED or of a type the handler
  does not name change nothing and call no listener.
\<close>

theorem handle_event_raises_only_on_bad_zone:
  assumes "length (zones a) = 16"
  shows "raised (handle_event a e) =
           (case e of
              SystemStatusEvent t z \<Rightarrow>
                (if t = EventType_UNSEALED \<or> t = EventType_SEALED then
                   (case z of
                      None \<Rightarrow> Some TypeError
                    | Some k \<Rightarrow> if - 15 \<le> k \<and> k \<le> 16 then None else Some IndexError)
                 else None)
            | _ \<Rightarrow> None) \<and>
         (raised (handle_event a e) \<noteq> None \<longrightarrow>
            alarm (handle_event a e) = a \<and> calls (handle_event a e) = []) \<and>
         handle_event a OtherEvent = returns a [] \<and>
         (request_id \<noteq> ZONE_INPUT_UNSEALED \<longrightarrow>
            handle_event a (ZoneUpdate request_id inc) = returns a []) \<and>
         (t' = EventType_ENTRY_DELAY_END \<or> t' = EventType_ARMING_DELAYED \<or> t' = EventType_other n \<longrightarrow>
            handle_event a (SystemStatusEvent t' z') = returns a [])"
proof (intro conjI impI)
  show "raised (handle_event a e) =
           (case e of
              SystemStatusEvent t z \<Rightarrow>
                (if t = EventType_UNSEALED \<or> t = EventType_SEALED then
                   (case z of
                      None \<Rightarrow> Some TypeError
                    | Some k \<Rightarrow> if - 15 \<le> k \<and> k \<le> 16 then None else Some IndexError)
                 else None)
            | _ \<Rightarrow> None)"
    by (cases e)
      (simp_all add: handle_arming_update_raised handle_zone_input_update_raised [OF assms]
         handle_system_status_event_raised [OF assms] returns_def)
next
  assume r: "raised (handle_event a e) \<noteq> None"
  show "alarm (handle_event a e) = a"
    using r
    by (cases e)
      (simp_all add: handle_arming_update_raised handle_zone_input_update_raised [OF assms]
         handle_system_status_event_raise_keeps returns_def split: if_splits)
  show "calls (handle_event a e) = []"
    using r
    by (cases e)
      (simp_all add: handle_arming_update_raised handle_zone_input_update_raised [OF assms]
         handle_system_status_event_raise_keeps returns_def split: if_splits)
next
  show "handle_event a OtherEvent = returns a []" by simp
next
  assume "request_id \<noteq> ZONE_INPUT_UNSEALED"
  then show "handle_event a (ZoneUpdate request_id inc) = returns a []" by simp
next
  assume "t' = EventType_ENTRY_DELAY_END \<or> t' = EventType_ARMING_DELAYED \<or> t' = EventType_other n"
  then show "handle_event a (SystemStatusEvent t' z') = returns a []"
    by (auto simp: handle_system_status_event_def)
qed

theorem handle_event_raises_only_on_bad_zone_witness:
  "length (zones (Alarm_init False)) = 16 \<and>
   raised (handle_event (Alarm_init False) (SystemStatusEvent EventType_UNSEALED (Some 16))) = None \<and>
   raised (handle_event (Alarm_init False) (SystemStatusEvent EventType_SEALED (Some (- 15)))) = None \<and>
   raised (handle_event (Alarm_init False) (SystemStatusEvent EventType_SEALED (Some (- 16)))) = Some IndexError \<and>
   alarm (handle_event (Alarm_init False) (SystemStatusEvent EventType_SEALED (Some (- 16)))) = Alarm_init False \<and>
   raised (handle_event (Alarm_init False) (ZoneUpdate ZONE_INPUT_UNSEALED [ZONE_1])) = None \<and>
   handle_event (Alarm_init False) (ZoneUpdate (RequestID_other 0) [ZONE_1]) = returns (Alarm_init False) [] \<and>
   handle_event (Alarm_init False) (SystemStatusEvent (EventType_other 5) None) = returns (Alarm_init False) []"
proof -
  have len: "length (zones (Alarm_init False)) = 16" by (simp add: Alarm_init_def)
  note t = handle_event_raises_only_on_bad_zone [OF len]
  show ?thesis
    using len
      t [where e = "SystemStatusEvent EventType_UNSEALED (Some 16)", THEN conjunct1]
      t [where e = "SystemStatusEvent EventType_SEALED (Some (- 15))", THEN conjunct1]
      t [where e = "SystemStatusEvent EventType_SEALED (Some (- 16))" and request_id = "RequestID_other 0"
          and inc = "[ZONE_1]" and t' = "EventType_other 5" and n = 5 and z' = None]
      t [where e = "ZoneUpdate ZONE_INPUT_UNSEALED [ZONE_1]", THEN conjunct1]
    by simp
qed

subsection \<open>Handling an event twice\<close>

lemma update_arming_state_twice:
  "update_arming_state (alarm (update_arming_state a s)) s =
     returns (alarm (update_arming_state a s)) []"
  by (simp add: update_arming_state_def returns_def)

lemma handle_arming_update_twice:
  "handle_arming_update (alarm (handle_arming_update a st)) st =
     returns (alarm (handle_arming_update a st)) []"
  by (auto simp: handle_arming_update_def update_arming_state_def returns_def)

lemma list_index_less: "list_index n i = Some j \<Longrightarrow> j < n"
  by (auto simp: list_index_def Let_def split: if_splits)

lemma update_zone_twice:
  "alarm (update_zone (alarm (update_zone a z b)) z b) = alarm (update_zone a z b) \<and>
   calls (update_zone (alarm (update_zone a z b)) z b) = [] \<and>
   raised (update_zone (alarm (update_zone a z b)) z b) = raised (update_zone a z b)"
proof (cases z)
  case None
  then show ?thesis by (simp add: update_zone_def raises_def)
next
  case (Some k)
  show ?thesis
  proof (cases "list_index (length (zones a)) (k - 1)")
    case None
    then show ?thesis using Some by (simp add: update_zone_def raises_def)
  next
    case (Some j)
    then have "j < length (zones a)" by (rule list_index_less)
    then show ?thesis
      using Some \<open>z = Some k\<close> by (simp add: update_zone_def returns_def)
  qed
qed

lemma handle_system_status_event_twice:
  "alarm (handle_system_status_event (alarm (handle_system_status_event a t z)) t z) =
     alarm (handle_system_status_event a t z) \<and>
   calls (handle_system_status_event (alarm (handle_system_status_event a t z)) t z) = [] \<and>
   raised (handle_system_status_event (alarm (handle_system_status_event a t z)) t z) =
     raised (handle_system_status_event a t z)"
  by (cases t)
    (simp_all add: handle_system_status_event_def update_zone_twice
       update_arming_state_def returns_def)

lemma handle_zone_input_update_twice:
  assumes "length (zones a) = 16"
  shows "handle_zone_input_update (alarm (handle_zone_input_update a inc)) inc =
           returns (alarm (handle_zone_input_update a inc)) []"
proof -
  let ?r1 = "zone_input_loop [0..<16] inc a"
  let ?a1 = "alarm ?r1"
  let ?r2 = "zone_input_loop [0..<16] inc ?a1"
  have all: "\<forall>i \<in> set [0..<16]. i < length (zones a) \<and> i < 16"
    using assms by simp
  note f1 = zone_input_loop_frame [OF all, of inc]
  have len1: "length (zones ?a1) = 16" using f1 assms by simp
  have all1: "\<forall>i \<in> set [0..<16]. i < length (zones ?a1) \<and> i < 16"
    using len1 by simp
  note f2 = zone_input_loop_frame [OF all1, of inc]
  have t1: "triggered (zones ?a1 ! i) = Some (zone_included inc (i + 1))" if "i < 16" for i
    using zone_input_loop_zones [OF all, of i inc] that assms by simp
  have t2: "triggered (zones (alarm ?r2) ! i) = Some (zone_included inc (i + 1))" if "i < 16" for i
    using zone_input_loop_zones [OF all1, of i inc] that len1 by simp
  have zs: "zones (alarm ?r2) = zones ?a1"
  proof (rule nth_equalityI)
    show "length (zones (alarm ?r2)) = length (zones ?a1)" using f2 by simp
  next
    fix i assume "i < length (zones (alarm ?r2))"
    then have "i < 16" using f2 len1 by simp
    then have "triggered (zones (alarm ?r2) ! i) = triggered (zones ?a1 ! i)"
      using t1 t2 by simp
    then show "zones (alarm ?r2) ! i = zones ?a1 ! i" by simp
  qed
  have al: "alarm ?r2 = ?a1"
    using f2 zs by (intro Alarm.equality) simp_all
  have "zone_calls ?a1 inc i = []" if "i \<in> set [0..<16]" for i
    using t1 [of i] that by (simp add: zone_calls_def)
  then have cs: "calls ?r2 = []"
    using zone_input_loop_calls [OF all1, of inc] by simp
  have "?r2 = returns ?a1 []"
    using al cs f2 by (intro outcome.equality) (simp_all add: returns_def)
  then show ?thesis
    using assms len1 by (simp add: handle_zone_input_update_def)
qed

text \<open>
  Claim C8. Handling the same event twice in immediate succession notifies at most once
  per changed value: the second handling leaves the alarm (its arming state, recorded
  mode and sixteen zone values) as the first left it and calls no listener. When the
  first handling raises, the second raises the same exception, again with the alarm
  unchanged.
\<close>

theorem handle_event_twice:
  assumes "length (zones a) = 16"
  shows "alarm (handle_event (alarm (handle_event a e)) e) = alarm (handle_event a e) \<and>
         calls (handle_event (alarm (handle_event a e)) e) = [] \<and>
         raised (handle_event (alarm (handle_event a e)) e) = raised (handle_event a e)"
proof (cases e)
  case (ArmingUpdate st)
  then show ?thesis
    by (simp add: handle_arming_update_twice handle_arming_update_raised returns_def)
next
  case (ZoneUpdate rid inc)
  then show ?thesis
    by (simp add: handle_zone_input_update_twice [OF assms]
          handle_zone_input_update_raised [OF assms] returns_def)
next
  case (SystemStatusEvent t z)
  then show ?thesis by (simp add: handle_system_status_event_twice)
next
  case OtherEvent
  then show ?thesis by (simp add: returns_def)
qed

theorem handle_event_twice_witness:
  "length (zones (on_state_change (Alarm_init False) 1)) = 16 \<and>
   calls (handle_event (alarm (handle_event (on_state_change (Alarm_init False) 1)
       (SystemStatusEvent EventType_ARMED_AWAY None))) (SystemStatusEvent EventType_ARMED_AWAY None)) = [] \<and>
   alarm (handle_event (alarm (handle_event (on_state_change (Alarm_init False) 1)
       (SystemStatusEvent EventType_ARMED_AWAY None))) (SystemStatusEvent EventType_ARMED_AWAY None)) =
     alarm (handle_event (on_state_change (Alarm_init False) 1)
       (SystemStatusEvent EventType_ARMED_AWAY None))"
proof -
  have len: "length (zones (on_state_change (Alarm_init False) 1)) = 16"
    by (simp add: on_state_change_def Alarm_init_def)
  show ?thesis
    using len handle_event_twice [OF len, of "SystemStatusEvent EventType_ARMED_AWAY None"]
    by simp
qed

subsection \<open>The recorded mode after a disarm\<close>

text \<open>
  A fresh alarm records no mode, and every event keeps the mode to the arming and armed
  states, except an arming update handled without state inference.
\<close>

lemma update_zone_mode:
  "arming_mode (alarm (update_zone a z b)) = arming_mode a"
  by (simp add: update_zone_def returns_def raises_def split: option.splits)

lemma mode_only_when_armed_init: "mode_only_when_armed (Alarm_init infer)"
  by (simp add: mode_only_when_armed_def Alarm_init_def)

lemma mode_only_when_armed_kept:
  assumes "length (zones a) = 16" and "mode_only_when_armed a"
    and "infer_arming_state a \<or> (\<forall>st. e \<noteq> ArmingUpdate st)"
  shows "mode_only_when_armed (alarm (handle_event a e))"
proof (cases e)
  case (ArmingUpdate st)
  then show ?thesis
    using assms(2,3)
    by (auto simp: mode_only_when_armed_def handle_arming_update_def
          update_arming_state_def returns_def)
next
  case (ZoneUpdate rid inc)
  have "\<forall>i \<in> set [0..<16]. i < length (zones a) \<and> i < 16"
    using assms(1) by simp
  from zone_input_loop_frame [OF this, of inc] show ?thesis
    using ZoneUpdate assms(1,2)
    by (simp add: mode_only_when_armed_def handle_zone_input_update_def returns_def)
next
  case (SystemStatusEvent t z)
  then show ?thesis
    using assms(2)
    by (cases t)
      (auto simp: mode_only_when_armed_def handle_system_status_event_def
         update_arming_state_def returns_def update_zone_mode update_zone_arming_state)
next
  case OtherEvent
  then show ?thesis using assms(2) by (simp add: returns_def)
qed

text \<open>
  Claim C3 says that the recorded mode is present only in the states ARMING,
  EXIT_DELAY, ARMED, ARMED_MONITOR, ENTRY_DELAY and TRIGGERED, and that it is cleared on
  every transition to DISARMED, that of the fallback rule of the arming update
  included. The event DISARMED clears the mode; the fallback rule does not. On a fresh
  alarm without state inference, the event ARMED_AWAY followed by an ArmingUpdate with an
  empty status leaves the state DISARMED with the mode ARMED_AWAY still recorded, and
  the state-change listener is called with DISARMED and that mode.
\<close>

theorem fallback_disarm_keeps_mode:
  "(let r = handle_events (on_state_change (Alarm_init False) 0)
              [SystemStatusEvent EventType_ARMED_AWAY None, ArmingUpdate []]
    in arming_state (alarm r) = DISARMED \<and> arming_mode (alarm r) = Some ARMED_AWAY \<and>
       raised r = None \<and>
       calls r = [StateChangeCall 0 ARMING (Some ARMED_AWAY),
                  StateChangeCall 0 DISARMED (Some ARMED_AWAY)])"
  by (simp add: handle_system_status_event_def handle_arming_update_def update_arming_state_def
        returns_def after_calls_def on_state_change_def Alarm_init_def Let_def)

end
